theory Spec2Isabelle
  imports Complex_Main "HOL-Library.Numeral_Type"
begin

section \<open>Data model\<close>

text \<open>
  The Swendson-Wang model of \<^verbatim>\<open>Models.py\<close> works on three kinds of objects it does not
  build itself: a lattice (a cell complex with a finite field and a boundary matrix), a chain
  (lattice, current state, step index) and the numerical primitives of numpy, galois and
  the \<^verbatim>\<open>distributions\<close> module.  Field elements are values of a commutative ring \<open>'a\<close>;
  the integers a galois array is built from are turned into field elements by the field
  object.
\<close>

datatype error = IndexError | ValueError | TypeError | OverflowError

text \<open>A cell carries its index; a 1-cell also carries its two end points and the spin flag.\<close>

record cell =
  index :: nat

record edge = cell +
  coordinates :: "cell \<times> cell"
  spin :: int

text \<open>
  The field object \<^verbatim>\<open>lattice.field\<close>: its order, and the element that an integer of
  the range \<open>[0, order)\<close> denotes.
\<close>

record 'a galois =
  order :: int
  elem :: "int \<Rightarrow> 'a"

text \<open>
  \<^verbatim>\<open>lattice.structure[0]\<close> are the \<open>vertices\<close>, \<^verbatim>\<open>lattice.structure[1]\<close> the \<open>edges\<close>;
  \<open>boundary\<close> is a matrix, stored as the list of its rows.
\<close>

record 'a lattice =
  field :: "'a galois"
  vertices :: "cell list"
  edges :: "edge list"
  boundary :: "'a list list"

record 'a chain =
  lattice :: "'a lattice"
  state :: "'a list"
  step :: nat

record 'a swendson_wang =
  temperature :: "nat \<Rightarrow> real"
  accept :: "'a chain \<Rightarrow> bool"
  testing :: bool

text \<open>
  The primitives the model calls but does not define.  A floating-point number is the real
  it denotes (a temperature is real-valued by the docstring of the model; infinities and NaN
  are not values of the model); \<open>np_exp\<close> is \<^verbatim>\<open>np.exp\<close> and \<open>float_sub\<close> the subtraction of two such
  numbers, each with the rounding of the machine, so neither needs to be the operation of
  the reals (in double precision \<^verbatim>\<open>np.exp\<close> returns 0 far enough below zero, and
  \<^verbatim>\<open>1 - x\<close> is 1 for every small enough \<open>x\<close>);
  \<open>np_random_uniform k\<close> is the value of the \<open>k\<close>-th call of \<^verbatim>\<open>np.random.uniform()\<close>
  within one proposal; \<open>uniform k low high\<close> is the value of the \<open>k\<close>-th call of
  \<^verbatim>\<open>uniform(low, high)\<close>; \<open>null_space\<close> is the method of the same name of a galois
  matrix and returns the rows of its result; \<open>astype_int\<close> is the method
  \<^verbatim>\<open>astype(int)\<close> of the array that \<^verbatim>\<open>np.array\<close> builds from a list of Python integers,
  the conversion to signed integers of 64 bits.
\<close>

record 'a externals =
  np_exp :: "real \<Rightarrow> real"
  float_sub :: "real \<Rightarrow> real \<Rightarrow> real"
  np_random_uniform :: "nat \<Rightarrow> real"
  uniform :: "nat \<Rightarrow> int \<Rightarrow> int \<Rightarrow> int"
  null_space :: "'a list list \<Rightarrow> 'a list list"
  astype_int :: "int list \<Rightarrow> error + int list"

text \<open>What the testing mode prints and writes to file, in order.\<close>

datatype 'a event =
    IncludedEdge cell cell real real
  | StateCsv nat "'a list"
  | OperatorCsv nat "'a list list"
  | Printed "'a list"

section \<open>Field arrays\<close>

text \<open>
  Building a field array from integers checks the range of every entry and raises
  a \<^verbatim>\<open>ValueError\<close> outside of it.
\<close>

definition in_field :: "'a galois \<Rightarrow> int \<Rightarrow> bool" where
  "in_field F x = (0 \<le> x \<and> x < order F)"

definition field_elem :: "'a galois \<Rightarrow> int \<Rightarrow> error + 'a" where
  "field_elem F x = (if in_field F x then Inr (elem F x) else Inl ValueError)"

definition field_array :: "'a galois \<Rightarrow> int list \<Rightarrow> error + 'a list" where
  "field_array F xs = (if list_all (in_field F) xs then Inr (map (elem F) xs) else Inl ValueError)"

definition field_matrix :: "'a galois \<Rightarrow> int list list \<Rightarrow> error + 'a list list" where
  "field_matrix F rows =
     (if list_all (list_all (in_field F)) rows then Inr (map (map (elem F)) rows)
      else Inl ValueError)"

text \<open>Matrices are lists of rows of one length.\<close>

definition ncols :: "'a list list \<Rightarrow> nat" where
  "ncols A = (case A of [] \<Rightarrow> 0 | r # _ \<Rightarrow> length r)"

definition column :: "'a list list \<Rightarrow> nat \<Rightarrow> 'a list" where
  "column A j = map (\<lambda>r. r ! j) A"

definition dot :: "'a::comm_ring_1 list \<Rightarrow> 'a list \<Rightarrow> 'a" where
  "dot r c = sum_list (map (\<lambda>(a, b). a * b) (zip r c))"

text \<open>\<^verbatim>\<open>np.matmul\<close> raises a \<^verbatim>\<open>ValueError\<close> when the inner dimensions differ.\<close>

definition matmul :: "'a::comm_ring_1 list list \<Rightarrow> 'a list list \<Rightarrow> error + 'a list list" where
  "matmul A B =
     (if list_all (\<lambda>r. length r = length B) A
      then Inr (map (\<lambda>r. map (\<lambda>j. dot r (column B j)) [0..<ncols B]) A)
      else Inl ValueError)"

text \<open>The attribute \<^verbatim>\<open>.T\<close>.\<close>

definition transpose_m :: "'a list list \<Rightarrow> 'a list list" where
  "transpose_m A = map (column A) [0..<ncols A]"

text \<open>
  The product of a Python integer with a field array adds the array to itself that many
  times; \<^verbatim>\<open>np.add\<close> adds two field arrays entry by entry.
\<close>

definition smul :: "int \<Rightarrow> 'a::comm_ring_1 list \<Rightarrow> 'a list" where
  "smul k b = map (\<lambda>x. of_int k * x) b"

definition vadd :: "'a::comm_ring_1 list \<Rightarrow> 'a list \<Rightarrow> 'a list" where
  "vadd x y = map (\<lambda>(a, b). a + b) (zip x y)"

text \<open>
  \<^verbatim>\<open>reduce(np.add, terms)\<close> has no initial value: on the empty list it raises
  a \<^verbatim>\<open>TypeError\<close>.
\<close>

definition reduce_add :: "'a::comm_ring_1 list list \<Rightarrow> error + 'a list" where
  "reduce_add terms = (case terms of [] \<Rightarrow> Inl TypeError | t # ts \<Rightarrow> Inr (foldl vadd t ts))"

section \<open>The proposal\<close>

text \<open>
  The state of the scan over the edges: the selector matrix \<open>included\<close>, the number of
  calls of \<^verbatim>\<open>np.random.uniform()\<close> made so far, and what has been printed.
\<close>

record 'a scan =
  included :: "'a list list"
  drawn :: nat
  out :: "'a event list"

text \<open>
  The body of the loop for one edge.  It returns the edge (with its spin flag written), the
  new state of the scan and the error raised, if any.  An \<^verbatim>\<open>IndexError\<close> leaves the
  edge as it was.
\<close>

definition visit ::
  "'a swendson_wang \<Rightarrow> 'a externals \<Rightarrow> 'a chain \<Rightarrow> edge \<Rightarrow> 'a scan \<Rightarrow> edge \<times> 'a scan \<times> error option"
where
  "visit m X ch e s =
     (let (u, v) = coordinates e; st = state ch in
      if \<not> (index u < length st \<and> index v < length st) then (e, s, Some IndexError)
      else if st ! index u \<noteq> st ! index v then (e\<lparr>spin := 0\<rparr>, s, None)
      else
        let p = float_sub X 1 (np_exp X (temperature m (step ch)));
            q = np_random_uniform X (drawn s);
            s1 = s\<lparr>drawn := Suc (drawn s)\<rparr>
        in if q < p then
             let s2 = (if testing m then s1\<lparr>out := out s1 @ [IncludedEdge u v q p]\<rparr> else s1);
                 i = index e
             in if \<not> (i < length (included s2) \<and> i < length (included s2 ! i))
                then (e, s2, Some IndexError)
                else (case field_elem (field (lattice ch)) 1 of
                        Inl err \<Rightarrow> (e, s2, Some err)
                      | Inr one \<Rightarrow>
                          (e\<lparr>spin := 1\<rparr>,
                           s2\<lparr>included := (included s2)[i := (included s2 ! i)[i := one]]\<rparr>,
                           None))
           else (e\<lparr>spin := 0\<rparr>, s1, None))"

text \<open>The loop: it stops at the first error, and the edges after it are left as they were.\<close>

fun scan_edges ::
  "'a swendson_wang \<Rightarrow> 'a externals \<Rightarrow> 'a chain \<Rightarrow> edge list \<Rightarrow> 'a scan
     \<Rightarrow> edge list \<times> 'a scan \<times> error option"
where
  "scan_edges m X ch [] s = ([], s, None)"
| "scan_edges m X ch (e # es) s =
     (case visit m X ch e s of
        (e', s', Some err) \<Rightarrow> (e' # es, s', Some err)
      | (e', s', None) \<Rightarrow>
          (case scan_edges m X ch es s' of (es', s'', r) \<Rightarrow> (e' # es', s'', r)))"

text \<open>
  The first part of \<^verbatim>\<open>proposal\<close>: the selector is created as the zero matrix over the
  field and the edges are scanned.
\<close>

definition selector ::
  "'a swendson_wang \<Rightarrow> 'a externals \<Rightarrow> 'a chain \<Rightarrow> edge list \<times> 'a scan \<times> error option"
where
  "selector m X ch =
     (let L = lattice ch; M = length (edges L) in
      case field_matrix (field L) (replicate M (replicate M 0)) of
        Inl err \<Rightarrow> (edges L, \<lparr>included = [], drawn = 0, out = []\<rparr>, Some err)
      | Inr zeros \<Rightarrow> scan_edges m X ch (edges L) \<lparr>included = zeros, drawn = 0, out = []\<rparr>)"

text \<open>The induced boundary: the boundary matrix times the selector.\<close>

definition induced_boundary :: "'a::comm_ring_1 chain \<Rightarrow> 'a scan \<Rightarrow> error + 'a list list" where
  "induced_boundary ch s = matmul (boundary (lattice ch)) (included s)"

text \<open>
  The last part of \<^verbatim>\<open>proposal\<close>: a combination of the rows of the null space of the
  coboundary, with one coefficient drawn for each.  The closing \<^verbatim>\<open>np.array\<close> copies the
  sum and keeps its entries.
\<close>

definition from_null_space ::
  "'a externals \<Rightarrow> 'a chain \<Rightarrow> 'a::comm_ring_1 list list \<Rightarrow> error + 'a list"
where
  "from_null_space X ch bnd =
     (let coboundary = transpose_m bnd;
          basis = null_space X coboundary
      in reduce_add
           (map (\<lambda>(k, b). smul (uniform X k 0 (order (field (lattice ch)))) b)
                (enumerate 0 basis)))"

text \<open>
  \<^verbatim>\<open>proposal\<close> returns the chain as the call leaves it, what the testing mode has
  printed, and the proposed state or the error raised.
\<close>

definition proposal ::
  "'a swendson_wang \<Rightarrow> 'a externals \<Rightarrow> 'a::comm_ring_1 chain
     \<Rightarrow> 'a chain \<times> 'a event list \<times> (error + 'a list)"
where
  "proposal m X ch =
     (case selector m X ch of
        (es', s, r) \<Rightarrow>
          let L = lattice ch;
              ch' = ch\<lparr>lattice := L\<lparr>edges := es'\<rparr>\<rparr>
          in case r of
               Some err \<Rightarrow> (ch', out s, Inl err)
             | None \<Rightarrow>
                 (case induced_boundary ch s of
                    Inl err \<Rightarrow> (ch', out s, Inl err)
                  | Inr bnd \<Rightarrow>
                      let out1 = (if testing m
                                  then out s @ [StateCsv (step ch) (state ch),
                                                OperatorCsv (step ch) bnd]
                                  else out s)
                      in case from_null_space X ch bnd of
                           Inl err \<Rightarrow> (ch', out1, Inl err)
                         | Inr proposed \<Rightarrow>
                             (ch', if testing m then out1 @ [Printed proposed] else out1,
                              Inr proposed)))"

section \<open>The initial state\<close>

text \<open>
  \<open>distribution k low high\<close> is the value of the \<open>k\<close>-th call of the distribution, a Python
  integer.  The draws are converted by \<^verbatim>\<open>astype(int)\<close> before the field array is built
  from them; the array of ones of the testing mode is built from small integers and passed
  to the field as it is.  The lattice is returned as the call leaves it.
\<close>

definition initial ::
  "'a swendson_wang \<Rightarrow> 'a externals \<Rightarrow> 'a lattice \<Rightarrow> (nat \<Rightarrow> int \<Rightarrow> int \<Rightarrow> int)
     \<Rightarrow> 'a lattice \<times> (error + 'a list)"
where
  "initial m X L distribution =
     (let vs = vertices L;
          cocycle = map (\<lambda>k. distribution k 0 (order (field L))) [0..<length vs]
      in if testing m then (L, field_array (field L) (replicate (length vs) 1))
         else (case astype_int X cocycle of
                 Inl err \<Rightarrow> (L, Inl err)
               | Inr ints \<Rightarrow> (L, field_array (field L) ints)))"

text \<open>The integers that a signed integer of 64 bits holds.\<close>

definition int64 :: "int \<Rightarrow> bool" where
  "int64 x = (- (2 ^ 63) \<le> x \<and> x < 2 ^ 63)"

section \<open>Well-formed chains\<close>

text \<open>
  What the lattice and the field promise about a chain: the field has at least two
  elements and the integers 0 and 1 denote its zero and its one; the edges carry distinct
  indices below their number, and their end points are vertices of the state.
\<close>

definition wf_edges :: "'a::comm_ring_1 chain \<Rightarrow> bool" where
  "wf_edges ch =
     (let L = lattice ch; F = field L; N = length (state ch); M = length (edges L) in
      1 < order F \<and> elem F 0 = 0 \<and> elem F 1 = 1 \<and>
      distinct (map index (edges L)) \<and>
      list_all (\<lambda>e. index e < M \<and> index (fst (coordinates e)) < N
                      \<and> index (snd (coordinates e)) < N) (edges L))"

text \<open>The boundary matrix has one row for each vertex and one column for each edge.\<close>

definition wf_boundary :: "'a chain \<Rightarrow> bool" where
  "wf_boundary ch =
     (let L = lattice ch in
      length (boundary L) = length (state ch) \<and>
      list_all (\<lambda>r. length r = length (edges L)) (boundary L))"



text \<open>
  The decisions of the scan, read off the loop body: the end points of an edge \<open>differ\<close>
  when their spins do; \<open>prob\<close> is the probability \<open>p\<close>; \<open>flag k e\<close> is the spin flag the
  body writes to \<open>e\<close> when \<open>k\<close> draws have been made before; \<open>flags k es\<close> are the flags
  written to the edges \<open>es\<close> in turn.
\<close>

definition differ :: "'a chain \<Rightarrow> edge \<Rightarrow> bool" where
  "differ ch e =
     (state ch ! index (fst (coordinates e)) \<noteq> state ch ! index (snd (coordinates e)))"

definition prob :: "'a swendson_wang \<Rightarrow> 'a externals \<Rightarrow> 'a chain \<Rightarrow> real" where
  "prob m X ch = float_sub X 1 (np_exp X (temperature m (step ch)))"

definition flag :: "'a swendson_wang \<Rightarrow> 'a externals \<Rightarrow> 'a chain \<Rightarrow> nat \<Rightarrow> edge \<Rightarrow> int" where
  "flag m X ch k e =
     (if differ ch e then 0 else if np_random_uniform X k < prob m X ch then 1 else 0)"

fun flags :: "'a swendson_wang \<Rightarrow> 'a externals \<Rightarrow> 'a chain \<Rightarrow> nat \<Rightarrow> edge list \<Rightarrow> int list" where
  "flags m X ch k [] = []"
| "flags m X ch k (e # es) =
     flag m X ch k e # flags m X ch (if differ ch e then k else Suc k) es"

text \<open>The number of draws made while scanning the edges \<open>es\<close>.\<close>

definition draws :: "'a chain \<Rightarrow> edge list \<Rightarrow> nat" where
  "draws ch es = length (filter (\<lambda>e. \<not> differ ch e) es)"

section \<open>A path of three vertices over the field of order three\<close>

text \<open>
  Concrete inputs on which the model is run below: the field of order 3, a path
  \<open>0 - 1 - 2\<close> with its boundary matrix, a state whose first two spins agree, a model with a
  constant schedule, and primitives that always draw \<open>0\<close> from \<^verbatim>\<open>np.random.uniform()\<close>.
  \<open>float_exp\<close> is the exponential with the underflow of double precision; with it and
  the subtraction of the reals, \<open>p\<close> is the double that the code computes at the
  temperatures \<open>- 800\<close> (\<open>p = 1 - 0 = 1\<close>) and \<open>0\<close> (\<open>p = 1 - 1 = 0\<close>), and at the
  temperature \<open>- 1\<close> the real \<open>1 - exp (- 1)\<close> that the double rounds, above every draw
  \<open>0\<close> as the double is.  \<open>np_astype_int\<close> keeps a list of integers that fit 64 bits;
  a list with an entry from \<open>2 ^ 64\<close> on is an array of Python objects, whose conversion
  raises an \<^verbatim>\<open>OverflowError\<close> (the lists in between, which numpy wraps around or rounds,
  are not used below and are given the same error).
\<close>

definition gf3 :: "3 galois" where
  "gf3 = \<lparr>order = 3, elem = of_int\<rparr>"

definition vertex :: "nat \<Rightarrow> cell" where
  "vertex i = \<lparr>index = i\<rparr>"

definition path_lattice :: "3 lattice" where
  "path_lattice =
     \<lparr>field = gf3,
      vertices = [vertex 0, vertex 1, vertex 2],
      edges = [\<lparr>index = 0, coordinates = (vertex 0, vertex 1), spin = 0\<rparr>,
               \<lparr>index = 1, coordinates = (vertex 1, vertex 2), spin = 1\<rparr>],
      boundary = [[2, 0], [1, 2], [0, 1]]\<rparr>"

definition path_chain :: "3 chain" where
  "path_chain = \<lparr>lattice = path_lattice, state = [1, 1, 2], step = 0\<rparr>"

definition constant_model :: "real \<Rightarrow> bool \<Rightarrow> 3 swendson_wang" where
  "constant_model t b = \<lparr>temperature = (\<lambda>_. t), accept = (\<lambda>_. True), testing = b\<rparr>"

definition float_exp :: "real \<Rightarrow> real" where
  "float_exp x = (if x < - 746 then 0 else exp x)"

definition np_astype_int :: "int list \<Rightarrow> error + int list" where
  "np_astype_int xs = (if list_all int64 xs then Inr xs else Inl OverflowError)"

definition path_null_space :: "3 list list \<Rightarrow> 3 list list" where
  "path_null_space C =
     (if C = [[2, 1, 0], [0, 0, 0]] then [[1, 1, 0], [0, 0, 1]]
      else if C = [[0, 0, 0], [0, 0, 0]] then [[1, 0, 0], [0, 1, 0], [0, 0, 1]]
      else [])"

definition numpy :: "3 externals" where
  "numpy =
     \<lparr>np_exp = float_exp,
      float_sub = (\<lambda>a b. a - b),
      np_random_uniform = (\<lambda>_. 0),
      uniform = (\<lambda>k low high. if k = 0 then 2 else 1),
      null_space = path_null_space,
      astype_int = np_astype_int\<rparr>"

text \<open>
  A triangle whose boundary matrix holds \<open>1\<close> at both ends of every edge.  Over the field of
  order 3 its coboundary has the trivial null space, whose basis is empty.
\<close>

definition triangle_lattice :: "3 lattice" where
  "triangle_lattice =
     \<lparr>field = gf3,
      vertices = [vertex 0, vertex 1, vertex 2],
      edges = [\<lparr>index = 0, coordinates = (vertex 0, vertex 1), spin = 0\<rparr>,
               \<lparr>index = 1, coordinates = (vertex 1, vertex 2), spin = 0\<rparr>,
               \<lparr>index = 2, coordinates = (vertex 0, vertex 2), spin = 0\<rparr>],
      boundary = [[1, 0, 1], [1, 1, 0], [0, 1, 1]]\<rparr>"

definition triangle_chain :: "3 chain" where
  "triangle_chain = \<lparr>lattice = triangle_lattice, state = [1, 1, 1], step = 0\<rparr>"

definition triangle_numpy :: "3 externals" where
  "triangle_numpy =
     numpy\<lparr>null_space := (\<lambda>C. if C = [[1, 1, 0], [0, 1, 1], [1, 0, 1]] then [] else [[1, 1, 1]])\<rparr>"




text \<open>
  A single vertex over the prime field of order \<open>2 ^ 89 - 1\<close>, and a distribution that
  draws \<open>2 ^ 64\<close> whenever its bounds allow it.
\<close>

type_synonym mersenne89 = "618970019642690137449562111"

definition point_lattice :: "mersenne89 lattice" where
  "point_lattice =
     \<lparr>field = \<lparr>order = 2 ^ 89 - 1, elem = of_int\<rparr>,
      vertices = [vertex 0], edges = [], boundary = [[]]\<rparr>"

definition wide_draw :: "nat \<Rightarrow> int \<Rightarrow> int \<Rightarrow> int" where
  "wide_draw k low high = (if low \<le> 2 ^ 64 \<and> 2 ^ 64 < high then 2 ^ 64 else low)"

definition point_model :: "mersenne89 swendson_wang" where
  "point_model = \<lparr>temperature = (\<lambda>_. 0), accept = (\<lambda>_. True), testing = False\<rparr>"

definition point_numpy :: "mersenne89 externals" where
  "point_numpy =
     \<lparr>np_exp = float_exp,
      float_sub = (\<lambda>a b. a - b),
      np_random_uniform = (\<lambda>_. 0),
      uniform = (\<lambda>k low high. low),
      null_space = (\<lambda>C. []),
      astype_int = np_astype_int\<rparr>"

section \<open>The scan over the edges\<close>

lemma visit_ok:
  assumes "index (fst (coordinates e)) < length (state ch)"
      and "index (snd (coordinates e)) < length (state ch)"
      and "index e < length (included s)"
      and "index e < length (included s ! index e)"
      and "1 < order (field (lattice ch))"
  shows "visit m X ch e s =
           (e\<lparr>spin := flag m X ch (drawn s) e\<rparr>,
            s\<lparr>included := (if flag m X ch (drawn s) e = 1
                            then (included s)[index e := (included s ! index e)[index e := elem (field (lattice ch)) 1]]
                            else included s),
              drawn := (if differ ch e then drawn s else Suc (drawn s)),
              out := (if flag m X ch (drawn s) e = 1 \<and> testing m
                      then out s @ [IncludedEdge (fst (coordinates e)) (snd (coordinates e))
                                      (np_random_uniform X (drawn s)) (prob m X ch)]
                      else out s)\<rparr>,
            None)"
  using assms
  by (cases "coordinates e")
     (simp add: visit_def flag_def differ_def prob_def Let_def field_elem_def in_field_def)

lemma mark_nth:
  assumes "a < length A" and "b < length (A ! a)"
  shows "A[i := (A ! i)[i := x]] ! a ! b = (if a = i \<and> b = i then x else A ! a ! b)"
  using assms by (cases "a = i") (simp_all add: nth_list_update)

lemma mark_rows:
  assumes "\<forall>r\<in>set A. length r = M" and "i < length A"
  shows "\<forall>r\<in>set (A[i := (A ! i)[i := x]]). length r = M"
proof
  fix r assume "r \<in> set (A[i := (A ! i)[i := x]])"
  then have "r \<in> insert ((A ! i)[i := x]) (set A)"
    using set_update_subset_insert by fastforce
  with assms show "length r = M" by auto
qed

lemma length_flags [simp]: "length (flags m X ch k es) = length es"
  by (induction es arbitrary: k) simp_all

lemma flag_cases: "flag m X ch k e = 0 \<or> flag m X ch k e = 1"
  by (simp add: flag_def)

lemma scan_ok:
  assumes "\<forall>e\<in>set es. index e < M \<and> index (fst (coordinates e)) < length (state ch)
                       \<and> index (snd (coordinates e)) < length (state ch)"
      and "length (included s) = M"
      and "\<forall>r\<in>set (included s). length r = M"
      and "1 < order (field (lattice ch))"
  shows "\<exists>s'. scan_edges m X ch es s
                 = (map (\<lambda>(e, f). e\<lparr>spin := f\<rparr>) (zip es (flags m X ch (drawn s) es)), s', None)
            \<and> drawn s' = drawn s + draws ch es
            \<and> length (included s') = M
            \<and> (\<forall>r\<in>set (included s'). length r = M)
            \<and> (\<forall>a<M. \<forall>b<M. included s' ! a ! b =
                  (if a = b \<and> (\<exists>j<length es. index (es ! j) = a
                                   \<and> flags m X ch (drawn s) es ! j = 1)
                   then elem (field (lattice ch)) 1 else included s ! a ! b))"
  using assms(1,2,3)
proof (induction es arbitrary: s)
  case Nil
  then show ?case by (simp add: draws_def)
next
  case (Cons e es)
  let ?f = "flag m X ch (drawn s) e"
  let ?one = "elem (field (lattice ch)) 1"
  let ?inc1 = "if ?f = 1 then (included s)[index e := (included s ! index e)[index e := ?one]]
               else included s"
  let ?k1 = "if differ ch e then drawn s else Suc (drawn s)"
  obtain s1 where v: "visit m X ch e s = (e\<lparr>spin := ?f\<rparr>, s1, None)"
    and inc1: "included s1 = ?inc1" and k1: "drawn s1 = ?k1"
    using visit_ok[of e ch s m X] Cons.prems assms(4) by simp
  have e_ok: "index e < M" using Cons.prems(1) by simp
  have len1: "length (included s1) = M" using inc1 Cons.prems(2) by simp
  have rows1: "\<forall>r\<in>set (included s1). length r = M"
    using inc1 mark_rows[OF Cons.prems(3), of "index e" ?one] e_ok Cons.prems(2,3) by simp
  have es_ok: "\<forall>e\<in>set es. index e < M \<and> index (fst (coordinates e)) < length (state ch)
                       \<and> index (snd (coordinates e)) < length (state ch)"
    using Cons.prems(1) by simp
  from Cons.IH[OF es_ok len1 rows1] obtain s' where
    sc: "scan_edges m X ch es s1
           = (map (\<lambda>(e, f). e\<lparr>spin := f\<rparr>) (zip es (flags m X ch (drawn s1) es)), s', None)"
    and d: "drawn s' = drawn s1 + draws ch es"
    and l: "length (included s') = M"
    and r: "\<forall>r\<in>set (included s'). length r = M"
    and ent: "\<forall>a<M. \<forall>b<M. included s' ! a ! b =
                  (if a = b \<and> (\<exists>j<length es. index (es ! j) = a
                                   \<and> flags m X ch (drawn s1) es ! j = 1)
                   then ?one else included s1 ! a ! b)"
    by blast
  have first: "\<forall>a<M. \<forall>b<M. included s1 ! a ! b =
                 (if a = index e \<and> b = index e \<and> ?f = 1 then ?one else included s ! a ! b)"
  proof (intro allI impI)
    fix a b assume "a < M" "b < M"
    then have "a < length (included s)" "b < length (included s ! a)"
      using Cons.prems(2,3) by auto
    then show "included s1 ! a ! b =
                 (if a = index e \<and> b = index e \<and> ?f = 1 then ?one else included s ! a ! b)"
    proof (cases "?f = 1")
      case True
      then have "included s1 = (included s)[index e := (included s ! index e)[index e := ?one]]"
        using inc1 by simp
      then show ?thesis
        using True mark_nth[OF \<open>a < length (included s)\<close> \<open>b < length (included s ! a)\<close>, of "index e" ?one]
        by (simp only: if_True simp_thms)
    next
      case False
      then show ?thesis using inc1 by simp
    qed
  qed
  have "scan_edges m X ch (e # es) s
          = (map (\<lambda>(e, f). e\<lparr>spin := f\<rparr>) (zip (e # es) (flags m X ch (drawn s) (e # es))), s', None)"
    using v sc k1 by simp
  moreover have "drawn s' = drawn s + draws ch (e # es)"
    using d k1 by (simp add: draws_def)
  moreover have "\<forall>a<M. \<forall>b<M. included s' ! a ! b =
                  (if a = b \<and> (\<exists>j<length (e # es). index ((e # es) ! j) = a
                                   \<and> flags m X ch (drawn s) (e # es) ! j = 1)
                   then ?one else included s ! a ! b)"
  proof (intro allI impI)
    fix a b assume ab: "a < M" "b < M"
    have ex: "(\<exists>j<length (e # es). index ((e # es) ! j) = a
                  \<and> flags m X ch (drawn s) (e # es) ! j = 1)
              \<longleftrightarrow> (index e = a \<and> ?f = 1)
                  \<or> (\<exists>j<length es. index (es ! j) = a \<and> flags m X ch (drawn s1) es ! j = 1)"
      using k1 by (auto simp: less_Suc_eq_0_disj)
    show "included s' ! a ! b =
                  (if a = b \<and> (\<exists>j<length (e # es). index ((e # es) ! j) = a
                                   \<and> flags m X ch (drawn s) (e # es) ! j = 1)
                   then ?one else included s ! a ! b)"
      unfolding ex using ent first ab by auto
  qed
  ultimately show ?case using l r by blast
qed

lemma flags_nth:
  "j < length es \<Longrightarrow> flags m X ch k es ! j = flag m X ch (k + draws ch (take j es)) (es ! j)"
proof (induction es arbitrary: k j)
  case Nil
  then show ?case by simp
next
  case (Cons e es)
  then show ?case by (cases j) (simp_all add: draws_def)
qed

lemma zeros_ok:
  "0 < order F \<Longrightarrow>
   field_matrix F (replicate M (replicate M 0)) = Inr (replicate M (replicate M (elem F 0)))"
  by (simp add: field_matrix_def in_field_def list_all_iff)

lemma selector_ok:
  assumes "wf_edges ch"
  shows "\<exists>s. selector m X ch
                = (map (\<lambda>(e, f). e\<lparr>spin := f\<rparr>)
                       (zip (edges (lattice ch)) (flags m X ch 0 (edges (lattice ch)))), s, None)
            \<and> drawn s = draws ch (edges (lattice ch))
            \<and> length (included s) = length (edges (lattice ch))
            \<and> (\<forall>r\<in>set (included s). length r = length (edges (lattice ch)))
            \<and> (\<forall>a<length (edges (lattice ch)). \<forall>b<length (edges (lattice ch)).
                  included s ! a ! b =
                  (if a = b \<and> (\<exists>j<length (edges (lattice ch)). index (edges (lattice ch) ! j) = a
                                   \<and> flags m X ch 0 (edges (lattice ch)) ! j = 1)
                   then 1 else 0))"
proof -
  let ?L = "lattice ch" let ?es = "edges (lattice ch)" let ?M = "length (edges (lattice ch))"
  let ?F = "field (lattice ch)"
  let ?s0 = "\<lparr>included = replicate ?M (replicate ?M (elem ?F 0)), drawn = 0, out = []\<rparr>"
  from assms have ord: "1 < order ?F" and e0: "elem ?F 0 = 0" and e1: "elem ?F 1 = 1"
    and ok: "\<forall>e\<in>set ?es. index e < ?M \<and> index (fst (coordinates e)) < length (state ch)
                       \<and> index (snd (coordinates e)) < length (state ch)"
    by (simp_all add: wf_edges_def Let_def list_all_iff)
  have sel: "selector m X ch = scan_edges m X ch ?es ?s0"
    using ord by (simp add: selector_def Let_def zeros_ok)
  have "length (included ?s0) = ?M" "\<forall>r\<in>set (included ?s0). length r = ?M" by simp_all
  from scan_ok[OF ok this ord, of m X] obtain s' where
    sc: "scan_edges m X ch ?es ?s0
           = (map (\<lambda>(e, f). e\<lparr>spin := f\<rparr>) (zip ?es (flags m X ch (drawn ?s0) ?es)), s', None)"
    and d: "drawn s' = drawn ?s0 + draws ch ?es"
    and l: "length (included s') = ?M"
    and r: "\<forall>r\<in>set (included s'). length r = ?M"
    and ent: "\<forall>a<?M. \<forall>b<?M. included s' ! a ! b =
                  (if a = b \<and> (\<exists>j<?M. index (?es ! j) = a
                                   \<and> flags m X ch (drawn ?s0) ?es ! j = 1)
                   then elem ?F 1 else included ?s0 ! a ! b)"
    by blast
  have "\<forall>a<?M. \<forall>b<?M. included s' ! a ! b =
                  (if a = b \<and> (\<exists>j<?M. index (?es ! j) = a \<and> flags m X ch 0 ?es ! j = 1)
                   then 1 else 0)"
    using ent e0 e1 by auto
  then show ?thesis using sel sc d l r by simp
qed

lemma proposal_edges: "edges (lattice (fst (proposal m X ch))) = fst (selector m X ch)"
  by (simp add: proposal_def Let_def split: prod.splits option.splits sum.splits)

lemma index_spin_update [simp]: "index (e\<lparr>spin := f\<rparr>) = index e"
  by simp

lemma edges_after:
  assumes "wf_edges ch" and "j < length (edges (lattice ch))"
  shows "edges (lattice (fst (proposal m X ch))) ! j
           = (edges (lattice ch) ! j)\<lparr>spin := flags m X ch 0 (edges (lattice ch)) ! j\<rparr>"
proof -
  from selector_ok[OF assms(1), of m X] obtain s where
    "selector m X ch
       = (map (\<lambda>(e, f). e\<lparr>spin := f\<rparr>)
              (zip (edges (lattice ch)) (flags m X ch 0 (edges (lattice ch)))), s, None)"
    by blast
  then show ?thesis using assms(2) by (simp add: proposal_edges)
qed

lemma diagonal_after:
  assumes "wf_edges ch" and "j < length (edges (lattice ch))"
  shows "included (fst (snd (selector m X ch))) ! index (edges (lattice ch) ! j)
            ! index (edges (lattice ch) ! j)
           = (if flags m X ch 0 (edges (lattice ch)) ! j = 1 then 1 else 0)"
proof -
  let ?es = "edges (lattice ch)" let ?M = "length (edges (lattice ch))"
  from selector_ok[OF assms(1), of m X] obtain s where
    sel: "selector m X ch
       = (map (\<lambda>(e, f). e\<lparr>spin := f\<rparr>) (zip ?es (flags m X ch 0 ?es)), s, None)"
    and ent: "\<forall>a<?M. \<forall>b<?M. included s ! a ! b =
                  (if a = b \<and> (\<exists>j<?M. index (?es ! j) = a \<and> flags m X ch 0 ?es ! j = 1)
                   then 1 else 0)"
    by blast
  from assms have dist: "distinct (map index ?es)" and lt: "index (?es ! j) < ?M"
    by (simp_all add: wf_edges_def Let_def list_all_iff)
  have uniq: "\<And>i. i < ?M \<Longrightarrow> index (?es ! i) = index (?es ! j) \<Longrightarrow> i = j"
    using dist assms(2) by (metis length_map nth_eq_iff_index_eq nth_map)
  have "(\<exists>i<?M. index (?es ! i) = index (?es ! j) \<and> flags m X ch 0 ?es ! i = 1)
          \<longleftrightarrow> flags m X ch 0 ?es ! j = 1"
    using uniq assms(2) by blast
  then show ?thesis using ent lt sel by simp
qed

text \<open>The path is a well-formed chain; its first edge joins equal spins, its second does not.\<close>

lemma path_wf_edges: "wf_edges path_chain"
  by (simp add: wf_edges_def path_chain_def path_lattice_def gf3_def vertex_def)

lemma path_differ: "\<not> differ path_chain (edges (lattice path_chain) ! 0)"
  "differ path_chain (edges (lattice path_chain) ! 1)"
  by (simp_all add: differ_def path_chain_def path_lattice_def vertex_def)

lemma path_len: "length (edges (lattice path_chain)) = 2"
  by (simp add: path_chain_def path_lattice_def)

section \<open>Inclusion of edges\<close>

lemma visit_differ:
  assumes "index (fst (coordinates e)) < length (state ch)"
      and "index (snd (coordinates e)) < length (state ch)"
      and "differ ch e"
  shows "visit m X ch e s = (e\<lparr>spin := 0\<rparr>, s, None)"
  using assms by (cases "coordinates e") (simp add: visit_def differ_def Let_def)

lemma edges_length:
  assumes "wf_edges ch"
  shows "length (edges (lattice (fst (proposal m X ch)))) = length (edges (lattice ch))"
proof -
  from selector_ok[OF assms(1), of m X] obtain s where
    "selector m X ch
       = (map (\<lambda>(e, f). e\<lparr>spin := f\<rparr>)
              (zip (edges (lattice ch)) (flags m X ch 0 (edges (lattice ch)))), s, None)"
    by blast
  then show ?thesis by (simp add: proposal_edges)
qed

text \<open>
  Claim C3.  An edge whose end points carry different spins in the state of the chain has the
  spin flag 0 after the call of \<^verbatim>\<open>proposal\<close>, and its diagonal entry of the selector is 0.
  The loop body returns the state of the scan as it got it, for every value of the
  primitives: no draw is made for this edge.
\<close>

theorem differing_spins_excluded:
  assumes "wf_edges ch"
      and "j < length (edges (lattice ch))"
      and "differ ch (edges (lattice ch) ! j)"
  shows "spin (edges (lattice (fst (proposal m X ch))) ! j) = 0
       \<and> included (fst (snd (selector m X ch))) ! index (edges (lattice ch) ! j)
            ! index (edges (lattice ch) ! j) = 0
       \<and> (\<forall>s. visit m X ch (edges (lattice ch) ! j) s
                 = ((edges (lattice ch) ! j)\<lparr>spin := 0\<rparr>, s, None))"
proof -
  let ?e = "edges (lattice ch) ! j"
  have f: "flags m X ch 0 (edges (lattice ch)) ! j = 0"
    using assms(2,3) by (simp add: flags_nth flag_def)
  have "?e \<in> set (edges (lattice ch))" using assms(2) by simp
  with assms(1) have "index (fst (coordinates ?e)) < length (state ch)"
    "index (snd (coordinates ?e)) < length (state ch)"
    by (simp_all add: wf_edges_def Let_def list_all_iff)
  then have "\<forall>s. visit m X ch ?e s = (?e\<lparr>spin := 0\<rparr>, s, None)"
    using visit_differ assms(3) by blast
  then show ?thesis
    using f edges_after[OF assms(1,2), of m X] diagonal_after[OF assms(1,2), of m X] by simp
qed

theorem differing_spins_excluded_witness:
  "wf_edges path_chain \<and> 1 < length (edges (lattice path_chain))
   \<and> differ path_chain (edges (lattice path_chain) ! 1)
   \<and> spin (edges (lattice (fst (proposal (constant_model (- 1) False) numpy path_chain))) ! 1) = 0
   \<and> included (fst (snd (selector (constant_model (- 1) False) numpy path_chain))) ! 1 ! 1 = 0"
proof -
  have i: "index (edges (lattice path_chain) ! 1) = 1"
    by (simp add: path_chain_def path_lattice_def)
  have l: "1 < length (edges (lattice path_chain))" by (simp add: path_len)
  show ?thesis
    using differing_spins_excluded[where m = "constant_model (- 1) False" and X = numpy,
        OF path_wf_edges l path_differ(2)] path_wf_edges l path_differ(2) i
    by simp
qed

text \<open>
  Claim C4.  An edge whose end points carry the same spin is included exactly when its draw
  \<open>q_rand\<close> is below \<open>p = 1 - exp (temperature step)\<close>, the floating-point number that the
  code computes with \<^verbatim>\<open>np.exp\<close> and the subtraction of the machine: then its spin flag and
  its diagonal entry of the selector are 1, and otherwise both are 0.  The draw of the edge
  at position \<open>j\<close> is the one numbered by the draws made for the edges before it.
\<close>

theorem equal_spins_included_iff:
  assumes "wf_edges ch"
      and "j < length (edges (lattice ch))"
      and "\<not> differ ch (edges (lattice ch) ! j)"
      and "q_rand = np_random_uniform X (draws ch (take j (edges (lattice ch))))"
      and "p = float_sub X 1 (np_exp X (temperature m (step ch)))"
  shows "spin (edges (lattice (fst (proposal m X ch))) ! j) = (if q_rand < p then 1 else 0)
       \<and> included (fst (snd (selector m X ch))) ! index (edges (lattice ch) ! j)
            ! index (edges (lattice ch) ! j) = (if q_rand < p then 1 else 0)"
proof -
  have f: "flags m X ch 0 (edges (lattice ch)) ! j = (if q_rand < p then 1 else 0)"
    using assms(2-5) by (simp add: flags_nth flag_def prob_def)
  show ?thesis
    using f edges_after[OF assms(1,2), of m X] diagonal_after[OF assms(1,2), of m X] by simp
qed

theorem equal_spins_included_iff_witness:
  "wf_edges path_chain \<and> 0 < length (edges (lattice path_chain))
   \<and> \<not> differ path_chain (edges (lattice path_chain) ! 0)
   \<and> float_sub numpy 1 (np_exp numpy (temperature (constant_model (- 800) False) (step path_chain))) = 1
   \<and> spin (edges (lattice (fst (proposal (constant_model (- 800) False) numpy path_chain))) ! 0) = 1
   \<and> included (fst (snd (selector (constant_model (- 800) False) numpy path_chain))) ! 0 ! 0 = 1
   \<and> float_sub numpy 1 (np_exp numpy (temperature (constant_model 0 False) (step path_chain))) = 0
   \<and> spin (edges (lattice (fst (proposal (constant_model 0 False) numpy path_chain))) ! 0) = 0
   \<and> included (fst (snd (selector (constant_model 0 False) numpy path_chain))) ! 0 ! 0 = 0"
proof -
  have i: "index (edges (lattice path_chain) ! 0) = 0"
    by (simp add: path_chain_def path_lattice_def)
  have l: "0 < length (edges (lattice path_chain))" by (simp add: path_len)
  have q: "np_random_uniform numpy k = 0" for k by (simp add: numpy_def)
  have p1: "float_sub numpy 1
              (np_exp numpy (temperature (constant_model (- 800) False) (step path_chain))) = 1"
    by (simp add: numpy_def constant_model_def float_exp_def)
  have p2: "float_sub numpy 1
              (np_exp numpy (temperature (constant_model 0 False) (step path_chain))) = 0"
    by (simp add: numpy_def constant_model_def float_exp_def)
  show ?thesis
    using equal_spins_included_iff[where m = "constant_model (- 800) False" and X = numpy,
        OF path_wf_edges l path_differ(1) refl refl]
      equal_spins_included_iff[where m = "constant_model 0 False" and X = numpy,
        OF path_wf_edges l path_differ(1) refl refl]
      path_wf_edges l path_differ(1) i q p1 p2
    by simp
qed



text \<open>
  Claim C10.  After the scan the selector is an \<open>M \<times> M\<close> matrix, \<open>M\<close> the number of edges,
  whose entries off the diagonal are 0, and the diagonal entry of every edge is its spin
  flag, which is 0 or 1.
\<close>

theorem selector_diagonal:
  assumes "wf_edges ch"
      and "M = length (edges (lattice ch))"
      and "sel = included (fst (snd (selector m X ch)))"
  shows "length sel = M \<and> (\<forall>r\<in>set sel. length r = M)
       \<and> (\<forall>a<M. \<forall>b<M. a \<noteq> b \<longrightarrow> sel ! a ! b = 0)
       \<and> (\<forall>e\<in>set (edges (lattice (fst (proposal m X ch)))).
            sel ! index e ! index e = of_int (spin e) \<and> (spin e = 0 \<or> spin e = 1))"
proof -
  let ?es = "edges (lattice ch)"
  from selector_ok[OF assms(1), of m X] obtain s where
    sel: "selector m X ch
       = (map (\<lambda>(e, f). e\<lparr>spin := f\<rparr>) (zip ?es (flags m X ch 0 ?es)), s, None)"
    and l: "length (included s) = M"
    and r: "\<forall>r\<in>set (included s). length r = M"
    and ent: "\<forall>a<M. \<forall>b<M. included s ! a ! b =
                  (if a = b \<and> (\<exists>j<M. index (?es ! j) = a \<and> flags m X ch 0 ?es ! j = 1)
                   then 1 else 0)"
    unfolding assms(2) by blast
  have s: "sel = included s" using sel assms(3) by simp
  have "\<forall>e\<in>set (edges (lattice (fst (proposal m X ch)))).
            sel ! index e ! index e = of_int (spin e) \<and> (spin e = 0 \<or> spin e = 1)"
  proof
    fix e assume "e \<in> set (edges (lattice (fst (proposal m X ch))))"
    then obtain j where j: "j < length ?es" "e = edges (lattice (fst (proposal m X ch))) ! j"
      using edges_length[OF assms(1), of m X] by (metis in_set_conv_nth)
    have e: "e = (?es ! j)\<lparr>spin := flags m X ch 0 ?es ! j\<rparr>"
      using edges_after[OF assms(1) j(1), of m X] j(2) by simp
    have "flags m X ch 0 ?es ! j = 0 \<or> flags m X ch 0 ?es ! j = 1"
      using j(1) by (simp add: flags_nth flag_def)
    then show "sel ! index e ! index e = of_int (spin e) \<and> (spin e = 0 \<or> spin e = 1)"
      using diagonal_after[OF assms(1) j(1), of m X] e assms(3) by auto
  qed
  then show ?thesis using s l r ent by simp
qed

theorem selector_diagonal_witness:
  "wf_edges path_chain
   \<and> length (included (fst (snd (selector (constant_model (- 1) False) numpy path_chain)))) = 2
   \<and> included (fst (snd (selector (constant_model (- 1) False) numpy path_chain))) ! 0 ! 1 = 0"
proof -
  show ?thesis
    using selector_diagonal[where m = "constant_model (- 1) False" and X = numpy,
        OF path_wf_edges refl refl]
      path_wf_edges path_len
    by simp
qed

section \<open>What a proposal writes\<close>

lemma visit_frame: "\<exists>f. fst (visit m X ch e s) = e\<lparr>spin := f\<rparr>"
proof -
  have "e = e\<lparr>spin := spin e\<rparr>" by simp
  moreover have "fst (visit m X ch e s) = e \<or> fst (visit m X ch e s) = e\<lparr>spin := 0\<rparr>
        \<or> fst (visit m X ch e s) = e\<lparr>spin := 1\<rparr>"
    by (cases "coordinates e") (simp add: visit_def Let_def split: sum.splits)
  ultimately show ?thesis by metis
qed

lemma scan_frame:
  "map (\<lambda>e. e\<lparr>spin := 0\<rparr>) (fst (scan_edges m X ch es s)) = map (\<lambda>e. e\<lparr>spin := 0\<rparr>) es"
proof (induction es arbitrary: s)
  case Nil
  then show ?case by simp
next
  case (Cons e es)
  obtain e' s' r where v: "visit m X ch e s = (e', s', r)" by (metis prod_cases3)
  obtain f where "e' = e\<lparr>spin := f\<rparr>" using visit_frame[of m X ch e s] v by auto
  then have e': "e'\<lparr>spin := 0\<rparr> = e\<lparr>spin := 0\<rparr>" by simp
  show ?case
  proof (cases r)
    case None
    obtain es' s'' r' where sc: "scan_edges m X ch es s' = (es', s'', r')" by (metis prod_cases3)
    then have "map (\<lambda>e. e\<lparr>spin := 0\<rparr>) es' = map (\<lambda>e. e\<lparr>spin := 0\<rparr>) es"
      using Cons.IH[of s'] by simp
    then show ?thesis using v None sc e' by simp
  next
    case (Some err)
    then show ?thesis using v e' by simp
  qed
qed

lemma selector_frame:
  "map (\<lambda>e. e\<lparr>spin := 0\<rparr>) (fst (selector m X ch))
     = map (\<lambda>e. e\<lparr>spin := 0\<rparr>) (edges (lattice ch))"
  by (simp add: selector_def Let_def scan_frame split: sum.splits)

lemma proposal_chain:
  "fst (proposal m X ch) = ch\<lparr>lattice := (lattice ch)\<lparr>edges := fst (selector m X ch)\<rparr>\<rparr>"
  by (simp add: proposal_def Let_def split: prod.splits option.splits sum.splits)

text \<open>
  Claim C9.  Whatever the call does, also when it raises, the chain it leaves has the state
  vector and the step index of the chain it was given; field, vertices and boundary of the
  lattice are untouched, and the edges differ from the given ones in their spin flags only.
\<close>

theorem proposal_frame:
  "state (fst (proposal m X ch)) = state ch
   \<and> step (fst (proposal m X ch)) = step ch
   \<and> field (lattice (fst (proposal m X ch))) = field (lattice ch)
   \<and> vertices (lattice (fst (proposal m X ch))) = vertices (lattice ch)
   \<and> boundary (lattice (fst (proposal m X ch))) = boundary (lattice ch)
   \<and> map (\<lambda>e. e\<lparr>spin := 0\<rparr>) (edges (lattice (fst (proposal m X ch))))
       = map (\<lambda>e. e\<lparr>spin := 0\<rparr>) (edges (lattice ch))"
  by (simp add: proposal_chain selector_frame)

theorem proposal_frame_witness:
  "state (fst (proposal (constant_model (- 1) True) numpy path_chain)) = [1, 1, 2]
   \<and> step (fst (proposal (constant_model (- 1) True) numpy path_chain)) = 0"
  using proposal_frame[of "constant_model (- 1) True" numpy path_chain]
  by (simp add: path_chain_def)

section \<open>Initial states\<close>

text \<open>
  Claim C7.  With the testing flag set, \<^verbatim>\<open>initial\<close> returns the vector that holds the field
  element 1 for every vertex, whatever the distribution draws.
\<close>

theorem initial_testing:
  assumes "testing m" and "1 < order (field L)"
  shows "initial m X L distribution
           = (L, Inr (replicate (length (vertices L)) (elem (field L) 1)))"
  using assms by (simp add: initial_def Let_def field_array_def in_field_def list_all_iff)

theorem initial_testing_witness:
  "testing (constant_model (7 / 10) True) \<and> 1 < order (field path_lattice)
   \<and> initial (constant_model (7 / 10) True) numpy path_lattice
         (\<lambda>k low high. low + int k mod (high - low))
       = (path_lattice, Inr [1, 1, 1])"
proof -
  have t: "testing (constant_model (7 / 10) True)" by (simp add: constant_model_def)
  have o: "1 < order (field path_lattice)" by (simp add: path_lattice_def gf3_def)
  have "replicate (length (vertices path_lattice)) (elem (field path_lattice) 1) = [1, 1, 1::3]"
    by (simp add: path_lattice_def gf3_def numeral_3_eq_3)
  then show ?thesis
    using initial_testing[OF t o, where X = numpy
        and distribution = "\<lambda>k low high. low + int k mod (high - low)"] t o
    by simp
qed

text \<open>
  Claim C8.  The claim asks, for every field order \<open>q\<close> and every distribution that maps the
  bounds \<open>(low, high)\<close> to an integer of \<open>[low, high)\<close>, for one field element for each vertex.
  Over the field of order \<open>2 ^ 89 - 1\<close> the draw \<open>2 ^ 64\<close> lies within the bounds, and the
  conversion of the draws to integers of 64 bits raises an \<^verbatim>\<open>OverflowError\<close>: no state is
  returned.
\<close>

theorem initial_overflow:
  "1 < order (field point_lattice)
   \<and> 0 \<le> wide_draw 0 0 (order (field point_lattice))
   \<and> wide_draw 0 0 (order (field point_lattice)) < order (field point_lattice)
   \<and> initial point_model point_numpy point_lattice wide_draw
       = (point_lattice, Inl OverflowError)"
  by (simp add: initial_def point_lattice_def point_model_def point_numpy_def wide_draw_def
        np_astype_int_def int64_def Let_def)

lemma wide_draw_conforms:
  "low < high \<Longrightarrow> low \<le> wide_draw k low high \<and> wide_draw k low high < high"
  by (simp add: wide_draw_def)

text \<open>
  Claim C8, amended.  For a field of order \<open>q\<close> of at most \<open>2 ^ 63\<close>, so that every integer
  of \<open>[0, q)\<close> fits a signed integer of 64 bits (which \<^verbatim>\<open>astype(int)\<close> keeps), and a
  distribution that maps the bounds \<open>(low, high)\<close> to an integer of \<open>[low, high)\<close>,
  \<^verbatim>\<open>initial\<close> raises no error and returns one field element for each vertex, each built
  from an integer of \<open>[0, q)\<close>; the lattice is returned as it was given.
\<close>

theorem initial_shape:
  assumes "1 < order (field L)" and "order (field L) \<le> 2 ^ 63"
      and "\<forall>ys. list_all int64 ys \<longrightarrow> astype_int X ys = Inr ys"
      and "\<forall>k low high. low < high \<longrightarrow>
             low \<le> distribution k low high \<and> distribution k low high < high"
      and "xs = (if testing m then replicate (length (vertices L)) 1
                 else map (\<lambda>k. distribution k 0 (order (field L))) [0..<length (vertices L)])"
  shows "initial m X L distribution = (L, Inr (map (elem (field L)) xs))
       \<and> length xs = length (vertices L)
       \<and> (\<forall>x\<in>set xs. 0 \<le> x \<and> x < order (field L))"
proof -
  have r: "\<forall>x\<in>set xs. 0 \<le> x \<and> x < order (field L)"
    using assms(1,4,5) by auto
  then have "list_all (in_field (field L)) xs" by (simp add: list_all_iff in_field_def)
  then have f: "field_array (field L) xs = Inr (map (elem (field L)) xs)"
    by (simp add: field_array_def)
  have "\<forall>x\<in>set xs. int64 x"
  proof
    fix x assume "x \<in> set xs"
    then have "0 \<le> x" "x < order (field L)" using r by auto
    then show "int64 x" using assms(2) by (simp add: int64_def)
  qed
  then have a: "astype_int X xs = Inr xs" using assms(3) by (simp add: list_all_iff)
  have "initial m X L distribution = (L, Inr (map (elem (field L)) xs))"
  proof (cases "testing m")
    case True
    then show ?thesis using f assms(5) by (simp add: initial_def Let_def)
  next
    case False
    then have "xs = map (\<lambda>k. distribution k 0 (order (field L))) [0..<length (vertices L)]"
      using assms(5) by simp
    then show ?thesis using False f a by (simp add: initial_def Let_def)
  qed
  then show ?thesis using r assms(5) by simp
qed

theorem initial_shape_witness:
  "1 < order (field path_lattice) \<and> order (field path_lattice) \<le> 2 ^ 63
   \<and> initial (constant_model (7 / 10) False) numpy path_lattice
         (\<lambda>k low high. low + int k mod (high - low))
       = (path_lattice, Inr [0, 1, 2])"
proof -
  have o: "1 < order (field path_lattice)" by (simp add: path_lattice_def gf3_def)
  have o': "order (field path_lattice) \<le> 2 ^ 63" by (simp add: path_lattice_def gf3_def)
  have a: "\<forall>ys. list_all int64 ys \<longrightarrow> astype_int numpy ys = Inr ys"
    by (simp add: numpy_def np_astype_int_def)
  have d: "\<forall>k low high. low < high \<longrightarrow>
             low \<le> low + int k mod (high - low) \<and> low + int k mod (high - low) < high"
  proof (intro allI impI)
    fix k :: nat and low high :: int
    assume "low < high"
    then have "0 \<le> int k mod (high - low)" "int k mod (high - low) < high - low"
      by simp_all
    then show "low \<le> low + int k mod (high - low) \<and> low + int k mod (high - low) < high"
      by linarith
  qed
  have xs: "[0, 1, 2] =
      (if testing (constant_model (7 / 10) False)
       then replicate (length (vertices path_lattice)) 1
       else map (\<lambda>k. 0 + int k mod (order (field path_lattice) - 0))
              [0..<length (vertices path_lattice)])"
    by (simp add: path_lattice_def gf3_def constant_model_def)
  have e: "map (elem (field path_lattice)) [0, 1, 2] = [0, 1, 2]"
    by (simp add: path_lattice_def gf3_def)
  have "initial (constant_model (7 / 10) False) numpy path_lattice
            (\<lambda>k low high. low + int k mod (high - low))
          = (path_lattice, Inr (map (elem (field path_lattice)) [0, 1, 2]))"
    using initial_shape[where m = "constant_model (7 / 10) False" and X = numpy, OF o o' a d xs]
    by (rule conjunct1)
  then show ?thesis using o o' by (simp only: e simp_thms)
qed

section \<open>The induced boundary\<close>

text \<open>
  The product of a row with a column, as a sum over the positions; a column with one
  entry only picks one entry of the row.
\<close>

lemma dot_sum:
  "dot r c = (\<Sum>i<min (length r) (length c). r ! i * c ! i)"
proof -
  have "dot r c = (\<Sum>i = 0..<length (zip r c). map (\<lambda>(a, b). a * b) (zip r c) ! i)"
    by (simp add: dot_def sum_list_sum_nth)
  also have "\<dots> = (\<Sum>i = 0..<min (length r) (length c). r ! i * c ! i)"
    by (rule sum.cong) simp_all
  finally show ?thesis by (simp add: atLeast0LessThan)
qed

lemma dot_single:
  assumes "length r = M" and "length c = M" and "j < M"
      and "\<forall>k<M. k \<noteq> j \<longrightarrow> c ! k = 0"
  shows "dot r c = r ! j * c ! j"
proof -
  have "dot r c = (\<Sum>i<M. r ! i * c ! i)" using assms(1,2) by (simp add: dot_sum)
  also have "\<dots> = (\<Sum>i<M. if i = j then r ! j * c ! j else 0)"
    using assms(4) by (intro sum.cong) auto
  also have "\<dots> = r ! j * c ! j" using assms(3) by simp
  finally show ?thesis .
qed

lemma ncols_square: "\<forall>r\<in>set B. length r = length B \<Longrightarrow> ncols B = length B"
  by (cases B) (simp_all add: ncols_def)


lemma column_nth: "column A j = map (\<lambda>i. A ! i ! j) [0..<length A]"
  unfolding column_def by (rule nth_equalityI) simp_all

lemma induced_ok:
  assumes "wf_edges ch" and "wf_boundary ch"
  shows "\<exists>bnd. induced_boundary ch (fst (snd (selector m X ch))) = Inr bnd
            \<and> length bnd = length (state ch)
            \<and> (\<forall>row\<in>set bnd. length row = length (edges (lattice ch)))
            \<and> (\<forall>i<length (state ch). \<forall>j<length (edges (lattice ch)).
                  bnd ! i ! j = boundary (lattice ch) ! i ! j
                                * included (fst (snd (selector m X ch))) ! j ! j)"
proof -
  let ?A = "boundary (lattice ch)" let ?M = "length (edges (lattice ch))"
  let ?N = "length (state ch)" let ?es = "edges (lattice ch)"
  let ?B = "included (fst (snd (selector m X ch)))"
  from selector_ok[OF assms(1), of m X] obtain s where
    sel: "selector m X ch
       = (map (\<lambda>(e, f). e\<lparr>spin := f\<rparr>) (zip ?es (flags m X ch 0 ?es)), s, None)"
    and l: "length (included s) = ?M"
    and r: "\<forall>r\<in>set (included s). length r = ?M"
    and ent: "\<forall>a<?M. \<forall>b<?M. included s ! a ! b =
                  (if a = b \<and> (\<exists>j<?M. index (?es ! j) = a \<and> flags m X ch 0 ?es ! j = 1)
                   then 1 else 0)"
    by blast
  have B: "?B = included s" using sel by simp
  have lB: "length ?B = ?M" and rB: "\<forall>r\<in>set ?B. length r = ?M" using B l r by simp_all
  have off: "\<forall>a<?M. \<forall>b<?M. a \<noteq> b \<longrightarrow> ?B ! a ! b = 0" using B ent by simp
  have nc: "ncols ?B = ?M" using ncols_square[of ?B] lB rB by simp
  from assms(2) have lA: "length ?A = ?N" and rA: "\<forall>r\<in>set ?A. length r = ?M"
    by (simp_all add: wf_boundary_def Let_def list_all_iff)
  let ?bnd = "map (\<lambda>r. map (\<lambda>j. dot r (column ?B j)) [0..<?M]) ?A"
  have ib: "induced_boundary ch (fst (snd (selector m X ch))) = Inr ?bnd"
    using rA lB nc by (simp add: induced_boundary_def matmul_def list_all_iff)
  have "\<forall>i<?N. \<forall>j<?M. ?bnd ! i ! j = ?A ! i ! j * ?B ! j ! j"
  proof (intro allI impI)
    fix i j assume i: "i < ?N" and j: "j < ?M"
    have li: "length (?A ! i) = ?M" using rA lA i by simp
    have lc: "length (column ?B j) = ?M" using lB by (simp add: column_def)
    have z: "\<forall>k<?M. k \<noteq> j \<longrightarrow> column ?B j ! k = 0"
      using off j lB by (simp add: column_def)
    have "?bnd ! i ! j = dot (?A ! i) (column ?B j)" using i j lA by simp
    also have "\<dots> = ?A ! i ! j * column ?B j ! j" using dot_single[OF li lc j z] .
    also have "\<dots> = ?A ! i ! j * ?B ! j ! j" using j lB by (simp add: column_def)
    finally show "?bnd ! i ! j = ?A ! i ! j * ?B ! j ! j" .
  qed
  moreover have "length ?bnd = ?N" using lA by simp
  moreover have "\<forall>row\<in>set ?bnd. length row = ?M" by auto
  ultimately show ?thesis using ib by blast
qed

lemma induced_columns:
  assumes "wf_edges ch" and "wf_boundary ch"
      and "induced_boundary ch (fst (snd (selector m X ch))) = Inr bnd"
      and "e \<in> set (edges (lattice (fst (proposal m X ch))))"
  shows "column bnd (index e)
           = (if spin e = 1 then column (boundary (lattice ch)) (index e)
              else replicate (length (state ch)) 0)"
    and "index e < length (edges (lattice ch))"
    and "\<exists>e0\<in>set (edges (lattice ch)). index e0 = index e \<and> coordinates e0 = coordinates e"
    and "length bnd = length (state ch)"
    and "\<forall>row\<in>set bnd. length row = length (edges (lattice ch))"
proof -
  let ?A = "boundary (lattice ch)" let ?M = "length (edges (lattice ch))"
  let ?N = "length (state ch)" let ?es = "edges (lattice ch)"
  let ?B = "included (fst (snd (selector m X ch)))"
  from induced_ok[OF assms(1,2), of m X] assms(3) have
    lb: "length bnd = ?N"
    and rb: "\<forall>row\<in>set bnd. length row = ?M"
    and ent: "\<forall>i<?N. \<forall>j<?M. bnd ! i ! j = ?A ! i ! j * ?B ! j ! j"
    by auto
  from assms(2) have lA: "length ?A = ?N" by (simp add: wf_boundary_def Let_def)
  obtain j where j: "j < ?M" "e = edges (lattice (fst (proposal m X ch))) ! j"
    using edges_length[OF assms(1), of m X] assms(4) by (metis in_set_conv_nth)
  have e: "e = (?es ! j)\<lparr>spin := flags m X ch 0 ?es ! j\<rparr>"
    using edges_after[OF assms(1) j(1), of m X] j(2) by simp
  have mem: "?es ! j \<in> set ?es" using j(1) by simp
  then show lt: "index e < ?M"
    using assms(1) e by (simp add: wf_edges_def Let_def list_all_iff)
  show "\<exists>e0\<in>set ?es. index e0 = index e \<and> coordinates e0 = coordinates e"
    using mem e by (intro bexI[of _ "?es ! j"]) simp_all
  have d: "?B ! index e ! index e = (if spin e = 1 then 1 else 0)"
    using diagonal_after[OF assms(1) j(1), of m X] e by simp
  have "column bnd (index e) = map (\<lambda>i. bnd ! i ! index e) [0..<?N]"
    using lb by (simp add: column_nth)
  also have "\<dots> = map (\<lambda>i. ?A ! i ! index e * (if spin e = 1 then 1 else 0)) [0..<?N]"
    using ent lt d by simp
  also have "\<dots> = (if spin e = 1 then column ?A (index e) else replicate ?N 0)"
    using lA by (simp add: column_nth map_replicate_const)
  finally show "column bnd (index e)
           = (if spin e = 1 then column ?A (index e) else replicate ?N 0)" .
  show "length bnd = ?N" by (rule lb)
  show "\<forall>row\<in>set bnd. length row = ?M" by (rule rb)
qed

text \<open>
  The run of the model on the path, at temperature \<open>- 1\<close>: the first edge is included, the
  second is not.
\<close>

lemmas ev = selector_def field_matrix_def in_field_def field_elem_def visit_def Let_def
  constant_model_def numpy_def float_exp_def gf3_def vertex_def

lemma path_selector:
  "selector (constant_model (- 1) False) numpy path_chain
     = ([\<lparr>index = 0, coordinates = (vertex 0, vertex 1), spin = 1\<rparr>,
         \<lparr>index = 1, coordinates = (vertex 1, vertex 2), spin = 0\<rparr>],
        \<lparr>included = [[1, 0], [0, 0]], drawn = 1, out = []\<rparr>, None)"
  by (simp add: ev path_chain_def path_lattice_def)

lemma path_induced:
  "included s = [[1, 0], [0, 0]]
   \<Longrightarrow> induced_boundary path_chain s = Inr [[2, 0], [1, 0], [0, 0]]"
  by (simp add: induced_boundary_def matmul_def ncols_def column_def dot_def
        path_chain_def path_lattice_def)


lemma path_wf_boundary: "wf_boundary path_chain"
  by (simp add: wf_boundary_def path_chain_def path_lattice_def)


lemma path_edges_after:
  "edges (lattice (fst (proposal (constant_model (- 1) False) numpy path_chain)))
     = [\<lparr>index = 0, coordinates = (vertex 0, vertex 1), spin = 1\<rparr>,
        \<lparr>index = 1, coordinates = (vertex 1, vertex 2), spin = 0\<rparr>]"
  by (simp add: proposal_edges path_selector)

text \<open>
  Claim C5.  The induced boundary is the product of the boundary matrix with the selector;
  on a well-formed chain the product exists, its column of an excluded edge is zero, and its
  column of an included edge is the column of the boundary matrix.
\<close>

theorem induced_boundary_columns:
  assumes "wf_edges ch" and "wf_boundary ch"
      and "sel = fst (snd (selector m X ch))"
  shows "induced_boundary ch sel = matmul (boundary (lattice ch)) (included sel)
       \<and> (\<exists>bnd. induced_boundary ch sel = Inr bnd
             \<and> (\<forall>e\<in>set (edges (lattice (fst (proposal m X ch)))).
                   column bnd (index e)
                     = (if spin e = 1 then column (boundary (lattice ch)) (index e)
                        else replicate (length (state ch)) 0)))"
proof -
  from induced_ok[OF assms(1,2), of m X] obtain bnd where
    ib: "induced_boundary ch (fst (snd (selector m X ch))) = Inr bnd"
    by blast
  have "\<forall>e\<in>set (edges (lattice (fst (proposal m X ch)))).
           column bnd (index e)
             = (if spin e = 1 then column (boundary (lattice ch)) (index e)
                else replicate (length (state ch)) 0)"
    using induced_columns(1)[OF assms(1,2) ib] by blast
  then show ?thesis using ib assms(3) by (simp add: induced_boundary_def)
qed

theorem induced_boundary_columns_witness:
  "wf_edges path_chain \<and> wf_boundary path_chain
   \<and> induced_boundary path_chain (fst (snd (selector (constant_model (- 1) False) numpy path_chain)))
       = Inr [[2, 0], [1, 0], [0, 0]]
   \<and> column [[2, 0], [1, 0], [0, 0::3]] 0 = column (boundary (lattice path_chain)) 0
   \<and> column [[2, 0], [1, 0], [0, 0::3]] 1 = [0, 0, 0]"
proof -
  let ?m = "constant_model (- 1) False :: 3 swendson_wang"
  have ib: "induced_boundary path_chain (fst (snd (selector ?m numpy path_chain)))
              = Inr [[2, 0], [1, 0], [0, 0]]"
    by (simp add: path_selector path_induced)
  from induced_boundary_columns[where m = ?m and X = numpy, OF path_wf_edges path_wf_boundary refl]
  obtain bnd where b: "induced_boundary path_chain (fst (snd (selector ?m numpy path_chain))) = Inr bnd"
    and c: "\<forall>e\<in>set (edges (lattice (fst (proposal ?m numpy path_chain)))).
              column bnd (index e)
                = (if spin e = 1 then column (boundary (lattice path_chain)) (index e)
                   else replicate (length (state path_chain)) 0)"
    by blast
  from b ib have bnd: "bnd = [[2, 0], [1, 0], [0, 0]]" by simp
  have "column bnd 0 = column (boundary (lattice path_chain)) 0"
    and "column bnd 1 = replicate (length (state path_chain)) 0"
    using c by (simp_all add: path_edges_after)
  then show ?thesis
    using path_wf_edges path_wf_boundary ib bnd by (simp add: path_chain_def)
qed

section \<open>The proposed state\<close>

text \<open>
  The product of a row with a vector is additive and commutes with the product by an
  integer, so the vectors a row annihilates are closed under the sum that \<^verbatim>\<open>reduce\<close> forms.
\<close>

lemma length_vadd [simp]: "length (vadd x y) = min (length x) (length y)"
  by (simp add: vadd_def)

lemma length_smul [simp]: "length (smul k b) = length b"
  by (simp add: smul_def)

lemma dot_Nil [simp]: "dot [] c = 0" "dot r [] = 0"
  by (simp_all add: dot_def)

lemma dot_Cons [simp]: "dot (a # r) (b # c) = a * b + dot r c"
  by (simp add: dot_def)

lemma vadd_Cons [simp]: "vadd (a # x) (b # y) = (a + b) # vadd x y"
  by (simp add: vadd_def)

lemma smul_Cons [simp]: "smul k (a # x) = (of_int k * a) # smul k x" "smul k [] = []"
  by (simp_all add: smul_def)




lemma proposal_result:
  assumes "snd (snd (selector m X ch)) = None"
      and "induced_boundary ch (fst (snd (selector m X ch))) = Inr bnd"
  shows "snd (snd (proposal m X ch)) = from_null_space X ch bnd"
proof -
  obtain es' s r where sel: "selector m X ch = (es', s, r)" by (metis prod_cases3)
  with assms have "r = None" "induced_boundary ch s = Inr bnd" by simp_all
  then show ?thesis
    using sel by (cases "from_null_space X ch bnd") (simp_all add: proposal_def Let_def)
qed











lemma unsigned_spans:
  fixes x y z :: 3
  assumes "dot [1, 1, 0] [x, y, z] = 0" and "dot [0, 1, 1] [x, y, z] = 0"
  shows "[x, y, z] = map (\<lambda>c. x * c) [1, 2, 1]"
proof -
  from assms have a: "x + y = 0" and b: "y + z = 0" by simp_all
  have three: "(3::3) = 0" by simp
  have "y = (x + y) + 2 * x - 3 * x" by (simp add: algebra_simps)
  then have y: "y = x * 2" using a by (simp only: three mult_zero_left add_0_left diff_zero mult.commute)
  have "z = (y + z) + x - (x + y)" by (simp add: algebra_simps)
  then have z: "z = x" using a b by simp
  show ?thesis using y z by simp
qed




section \<open>The empty basis\<close>

text \<open>
  Once the scan and the product have succeeded, \<^verbatim>\<open>proposal\<close> raises
  a \<^verbatim>\<open>TypeError\<close> exactly when the basis is empty.
\<close>

lemma proposal_returns:
  assumes "snd (snd (selector m X ch)) = None"
      and "induced_boundary ch (fst (snd (selector m X ch))) = Inr bnd"
      and "null_space X (transpose_m bnd) \<noteq> []"
  shows "\<exists>proposed. snd (snd (proposal m X ch)) = Inr proposed"
  using assms(3)
  by (cases "null_space X (transpose_m bnd)")
     (simp_all add: proposal_result[OF assms(1,2)] from_null_space_def reduce_add_def)

lemma empty_basis_raises:
  assumes "snd (snd (selector m X ch)) = None"
      and "induced_boundary ch (fst (snd (selector m X ch))) = Inr bnd"
  shows "null_space X (transpose_m bnd) = []
           \<longleftrightarrow> snd (snd (proposal m X ch)) = Inl TypeError"
  by (cases "null_space X (transpose_m bnd)")
     (simp_all add: proposal_result[OF assms] from_null_space_def reduce_add_def)

text \<open>
  On the triangle every edge is included, the induced coboundary is the transposed
  boundary matrix, and the zero vector is the only one it annihilates.
\<close>

lemma triangle_selector:
  "selector (constant_model (- 1) False) triangle_numpy triangle_chain
     = ([\<lparr>index = 0, coordinates = (vertex 0, vertex 1), spin = 1\<rparr>,
         \<lparr>index = 1, coordinates = (vertex 1, vertex 2), spin = 1\<rparr>,
         \<lparr>index = 2, coordinates = (vertex 0, vertex 2), spin = 1\<rparr>],
        \<lparr>included = [[1, 0, 0], [0, 1, 0], [0, 0, 1]], drawn = 3, out = []\<rparr>, None)"
  by (simp add: ev triangle_numpy_def triangle_chain_def triangle_lattice_def)

lemma triangle_induced:
  "included s = [[1, 0, 0], [0, 1, 0], [0, 0, 1]]
   \<Longrightarrow> induced_boundary triangle_chain s = Inr [[1, 0, 1], [1, 1, 0], [0, 1, 1]]"
  by (simp add: induced_boundary_def matmul_def ncols_def column_def dot_def
        triangle_chain_def triangle_lattice_def)

lemma triangle_coboundary:
  "transpose_m [[1, 0, 1], [1, 1, 0], [0, 1, 1::3]] = [[1, 1, 0], [0, 1, 1], [1, 0, 1]]"
  by (simp add: transpose_m_def ncols_def column_def)

lemma triangle_trivial:
  fixes x y z :: 3
  assumes "dot [1, 1, 0] [x, y, z] = 0" and "dot [0, 1, 1] [x, y, z] = 0"
      and "dot [1, 0, 1] [x, y, z] = 0"
  shows "x = 0 \<and> y = 0 \<and> z = 0"
proof -
  from assms have a: "x + y = 0" and b: "y + z = 0" and c: "x + z = 0" by simp_all
  have three: "(3::3) = 0" by simp
  have "x + x = (x + y) + (x + z) - (y + z)" by (simp add: algebra_simps)
  then have d: "x + x = 0" using a b c by simp
  have "x = (x + x) + (x + x) - 3 * x" by (simp add: algebra_simps)
  then have "x = 0" using d by (simp only: three mult_zero_left add_0_left diff_zero)
  then show ?thesis using a c by simp
qed

text \<open>
  Claim C1.  The claim asks for the zero vector when the basis of the null space is
  empty.  On the triangle the basis is empty and the call ends in the \<^verbatim>\<open>TypeError\<close> that
  \<^verbatim>\<open>reduce\<close> raises on an empty list: no state is returned.
\<close>

theorem proposal_empty_basis_raises:
  "null_space triangle_numpy [[1, 1, 0], [0, 1, 1], [1, 0, 1]] = []
   \<and> snd (snd (proposal (constant_model (- 1) False) triangle_numpy triangle_chain))
       = Inl TypeError"
proof -
  have "snd (snd (proposal (constant_model (- 1) False) triangle_numpy triangle_chain))
          = from_null_space triangle_numpy triangle_chain [[1, 0, 1], [1, 1, 0], [0, 1, 1]]"
    by (rule proposal_result) (simp_all add: triangle_selector triangle_induced)
  also have "\<dots> = Inl TypeError"
    by (simp add: from_null_space_def triangle_coboundary triangle_numpy_def reduce_add_def)
  finally show ?thesis by (simp add: triangle_numpy_def)
qed

end
